theory Spec2Isabelle
  imports Complex_Main
begin

section \<open>Python values used by the controller\<close>

text \<open>
  The program is the class \<open>PSWController\<close> of \<open>ver2.py\<close> (\<open>main.py\<close> holds the same
  class without the remote/local and protection methods).  Python \<open>bytes\<close> are lists of
  8-bit characters; every \<open>str\<close> of the controller is either a constant command, the
  output of a float format, or the result of \<open>decode("ascii", errors="ignore")\<close>, so a
  \<open>str\<close> is a list of 8-bit characters as well, and \<open>encode("ascii")\<close> fails on a
  character above 127.
\<close>

type_synonym bytes = "char list"

text \<open>The exceptions that can leave a controller method.\<close>

datatype error =
    RuntimeError string
  | ValueError
  | UnicodeEncodeError
  | AttributeError
  | PortNotOpenError

text \<open>
  A Python \<open>float\<close>: a finite value (every binary64 number is a rational), the negative
  zero, the two infinities and not-a-number.  \<open>Fin 0\<close> is the positive zero.
\<close>

datatype pyfloat = Fin rat | NegZero | PInf | NInf | NaN

definition isfinite :: "pyfloat \<Rightarrow> bool" where
  "isfinite x = (case x of Fin q \<Rightarrow> True | NegZero \<Rightarrow> True | _ \<Rightarrow> False)"

text \<open>The comparison \<open>x >= 0\<close> of Python floats.\<close>

definition ge_zero :: "pyfloat \<Rightarrow> bool" where
  "ge_zero x = (case x of Fin q \<Rightarrow> 0 \<le> q | NegZero \<Rightarrow> True | PInf \<Rightarrow> True
                | NInf \<Rightarrow> False | NaN \<Rightarrow> False)"

definition CRLF :: string where
  "CRLF = [CHR 0x0D, CHR 0x0A]"

definition is_ascii :: "char \<Rightarrow> bool" where
  "is_ascii c = ((of_char c :: nat) < 128)"

text \<open>\<open>str.encode("ascii")\<close> and \<open>bytes.decode("ascii", errors="ignore")\<close>.\<close>

definition encode_ascii :: "string \<Rightarrow> error + bytes" where
  "encode_ascii s = (if list_all is_ascii s then Inr s else Inl UnicodeEncodeError)"

definition decode_ascii_ignore :: "bytes \<Rightarrow> string" where
  "decode_ascii_ignore bs = filter is_ascii bs"

text \<open>
  Whitespace of \<open>str.strip()\<close> among the ASCII characters: tab, line feed, vertical
  tab, form feed, carriage return, the four separators 0x1C to 0x1F, and the space.
\<close>

definition isspace :: "char \<Rightarrow> bool" where
  "isspace c = (let n = (of_char c :: nat) in (9 \<le> n \<and> n \<le> 13) \<or> (28 \<le> n \<and> n \<le> 32))"

definition lstrip :: "string \<Rightarrow> string" where
  "lstrip s = dropWhile isspace s"

definition rstrip :: "string \<Rightarrow> string" where
  "rstrip s = rev (dropWhile isspace (rev s))"

definition strip :: "string \<Rightarrow> string" where
  "strip s = rstrip (lstrip s)"

text \<open>
  \<open>int()\<close> and \<open>float()\<close> skip a narrower whitespace around an ASCII string: the
  separators 0x1C to 0x1F are not part of it.
\<close>

definition c_isspace :: "char \<Rightarrow> bool" where
  "c_isspace c = (let n = (of_char c :: nat) in (9 \<le> n \<and> n \<le> 13) \<or> n = 32)"

definition c_strip :: "string \<Rightarrow> string" where
  "c_strip s = rev (dropWhile c_isspace (rev (dropWhile c_isspace s)))"

subsection \<open>Decimal digits\<close>

definition isdigit :: "char \<Rightarrow> bool" where
  "isdigit c = (let n = (of_char c :: nat) in 48 \<le> n \<and> n \<le> 57)"

definition digit_char :: "nat \<Rightarrow> char" where
  "digit_char d = ''0123456789'' ! (d mod 10)"

fun dec_str :: "nat \<Rightarrow> string" where
  "dec_str n = (if n < 10 then [digit_char n] else dec_str (n div 10) @ [digit_char (n mod 10)])"

declare dec_str.simps [simp del]

subsection \<open>The format \<open>:.4f\<close>\<close>

text \<open>
  Python rounds the exact value of the float to four decimals, ties to even, keeps the
  sign of a negative value that rounds to zero, and prints the non-finite floats as
  \<open>inf\<close>, \<open>-inf\<close> and \<open>nan\<close>.
\<close>

definition round_half_even :: "rat \<Rightarrow> int" where
  "round_half_even x =
     (let f = \<lfloor>x\<rfloor>; r = x - of_int f
      in if r < 1 / 2 then f else if 1 / 2 < r then f + 1 else if even f then f else f + 1)"

definition zfill4 :: "string \<Rightarrow> string" where
  "zfill4 s = replicate (4 - length s) (CHR ''0'') @ s"

definition format_4f :: "pyfloat \<Rightarrow> string" where
  "format_4f x =
     (case x of
        NaN \<Rightarrow> ''nan''
      | PInf \<Rightarrow> ''inf''
      | NInf \<Rightarrow> ''-inf''
      | NegZero \<Rightarrow> ''-0.0000''
      | Fin q \<Rightarrow>
          (let n = nat (round_half_even (\<bar>q\<bar> * 10000))
           in (if q < 0 then ''-'' else '''') @ dec_str (n div 10000) @ ''.''
              @ zfill4 (dec_str (n mod 10000))))"

subsection \<open>The constructor \<open>int(str)\<close>\<close>

text \<open>
  In base ten \<open>int\<close> accepts, between optional whitespace, an optional sign and decimal
  digits, with single underscores allowed between two digits; anything else raises
  \<open>ValueError\<close>.  Since Python 3.11 it also raises \<open>ValueError\<close> when the text has more
  digits (leading zeros counted, sign, underscores and whitespace not) than the
  interpreter's limit, 4300 unless the interpreter is configured otherwise.
\<close>

definition max_str_digits :: nat where
  "max_str_digits = 4300"

fun is_digitpart :: "string \<Rightarrow> bool" where
  "is_digitpart [] = False"
| "is_digitpart [c] = isdigit c"
| "is_digitpart (c # d # cs) =
     (isdigit c \<and> (if d = CHR ''_'' then is_digitpart cs else is_digitpart (d # cs)))"

definition digit_val :: "char \<Rightarrow> nat" where
  "digit_val c = of_char c - 48"

definition digits_value :: "string \<Rightarrow> nat" where
  "digits_value ds = foldl (\<lambda>a c. 10 * a + digit_val c) 0 ds"

definition split_sign :: "string \<Rightarrow> bool \<times> string" where
  "split_sign t =
     (case t of
        [] \<Rightarrow> (False, t)
      | c # r \<Rightarrow>
          if c = CHR ''-'' then (True, r) else if c = CHR ''+'' then (False, r) else (False, t))"

definition py_int :: "string \<Rightarrow> error + int" where
  "py_int s =
     (let (neg, u) = split_sign (c_strip s);
          ds = filter (\<lambda>c. c \<noteq> CHR ''_'') u
      in if is_digitpart u \<and> length ds \<le> max_str_digits
         then Inr ((if neg then - 1 else 1) * int (digits_value ds))
         else Inl ValueError)"

subsection \<open>The constructor \<open>float(str)\<close>\<close>

text \<open>
  The decimal value \<open>a / b\<close> (both positive) is rounded to the nearest binary64 number,
  ties to even: 53 significant bits, the exponent of the last bit not below \<open>-1074\<close>
  (gradual underflow), and infinity from \<open>2 ^ 1024\<close> on.
\<close>

fun ilog2 :: "nat \<Rightarrow> nat" where
  "ilog2 n = (if n < 2 then 0 else Suc (ilog2 (n div 2)))"

declare ilog2.simps [simp del]

definition rhe_div :: "nat \<Rightarrow> nat \<Rightarrow> nat" where
  "rhe_div a b =
     (let q = a div b; r = a mod b
      in if 2 * r < b then q else if b < 2 * r then q + 1 else if even q then q else q + 1)"

definition floor_log2 :: "nat \<Rightarrow> nat \<Rightarrow> int" where
  "floor_log2 a b =
     (let k = int (ilog2 a) - int (ilog2 b)
      in if (if 0 \<le> k then b * 2 ^ nat k \<le> a else b \<le> a * 2 ^ nat (- k)) then k else k - 1)"

definition round_binary64 :: "nat \<Rightarrow> nat \<Rightarrow> pyfloat" where
  "round_binary64 a b =
     (let e = max (floor_log2 a b - 52) (- 1074);
          m = (if 0 \<le> e then rhe_div a (b * 2 ^ nat e) else rhe_div (a * 2 ^ nat (- e)) b)
      in if 971 < e \<or> (e = 971 \<and> 2 ^ 53 \<le> m) then PInf
         else Fin (if 0 \<le> e then of_nat (m * 2 ^ nat e)
                   else of_nat m / of_nat (2 ^ nat (- e))))"

definition from_decimal :: "nat \<Rightarrow> int \<Rightarrow> pyfloat" where
  "from_decimal d k =
     (if d = 0 then Fin 0
      else if 0 \<le> k then round_binary64 (d * 10 ^ nat k) 1
      else round_binary64 d (10 ^ nat (- k)))"

definition negate :: "pyfloat \<Rightarrow> pyfloat" where
  "negate x =
     (case x of Fin q \<Rightarrow> if q = 0 then NegZero else Fin (- q) | NegZero \<Rightarrow> Fin 0
      | PInf \<Rightarrow> NInf | NInf \<Rightarrow> PInf | NaN \<Rightarrow> NaN)"

text \<open>
  \<open>float\<close> rejects a string in which an underscore is not between two digits, then
  drops the underscores and the surrounding whitespace, and accepts an optional sign
  before \<open>inf\<close>, \<open>infinity\<close> or \<open>nan\<close> in any case, or before a decimal number with
  at least one digit, an optional point and an optional exponent.
\<close>

fun underscores_ok :: "char \<Rightarrow> string \<Rightarrow> bool" where
  "underscores_ok prev [] = (prev \<noteq> CHR ''_'')"
| "underscores_ok prev (c # cs) =
     ((if c = CHR ''_'' then isdigit prev else (prev = CHR ''_'' \<longrightarrow> isdigit c))
      \<and> underscores_ok c cs)"

definition lower_code :: "char \<Rightarrow> nat" where
  "lower_code c = (let n = (of_char c :: nat) in if 65 \<le> n \<and> n \<le> 90 then n + 32 else n)"

definition parse_exponent :: "string \<Rightarrow> int option" where
  "parse_exponent r =
     (case r of
        [] \<Rightarrow> Some 0
      | c # r' \<Rightarrow>
          if c = CHR ''e'' \<or> c = CHR ''E''
          then (let (neg, ds) = split_sign r'
                in if ds \<noteq> [] \<and> list_all isdigit ds
                   then Some ((if neg then - 1 else 1) * int (digits_value ds))
                   else None)
          else None)"

definition parse_floatnumber :: "string \<Rightarrow> (nat \<times> int) option" where
  "parse_floatnumber u =
     (let ip = takeWhile isdigit u; r1 = dropWhile isdigit u;
          (fp, r2) = (case r1 of
                        [] \<Rightarrow> ([], r1)
                      | c # r \<Rightarrow>
                          if c = CHR ''.'' then (takeWhile isdigit r, dropWhile isdigit r)
                          else ([], r1))
      in if ip = [] \<and> fp = [] then None
         else (case parse_exponent r2 of
                 None \<Rightarrow> None
               | Some x \<Rightarrow> Some (digits_value (ip @ fp), x - int (length fp))))"

definition py_float :: "string \<Rightarrow> error + pyfloat" where
  "py_float s =
     (if \<not> underscores_ok (CHR 0x00) s then Inl ValueError
      else
        (let (neg, u) = split_sign (c_strip (filter (\<lambda>c. c \<noteq> CHR ''_'') s));
             w = map lower_code u
         in if w = map of_char ''inf'' \<or> w = map of_char ''infinity''
            then Inr (if neg then NInf else PInf)
            else if w = map of_char ''nan'' then Inr NaN
            else (case parse_floatnumber u of
                    None \<Rightarrow> Inl ValueError
                  | Some (d, k) \<Rightarrow>
                      Inr (if neg then negate (from_decimal d k) else from_decimal d k))))"

subsection \<open>The method \<open>str.split(sep)\<close> for a separator of one character\<close>

fun split_on :: "char \<Rightarrow> string \<Rightarrow> string list" where
  "split_on sep [] = [] # []"
| "split_on sep (c # cs) =
     (if c = sep then [] # split_on sep cs
      else (case split_on sep cs of [] \<Rightarrow> [c] # [] | p # ps \<Rightarrow> (c # p) # ps))"

section \<open>The serial port\<close>

text \<open>
  The object \<open>serial.Serial\<close> of pyserial, as far as the controller uses it: the
  attribute \<open>is_open\<close>, the byte strings handed to \<open>write\<close> so far, and the bytes that
  have arrived and are not read yet.  The instrument at the other end is a function from
  everything written so far to the bytes it sends back after the latest write.
  \<open>readline\<close> returns the pending bytes up to and including the first line feed, or all
  of them (possibly none) when the timeout elapses before a line feed arrives.  Both
  methods of pyserial raise on a port that is not open; other faults of the line are
  outside the model.
\<close>

record Serial =
  port_is_open :: bool
  tx :: "bytes list"
  rx :: bytes
  instrument :: "bytes list \<Rightarrow> bytes"

definition serial_write :: "Serial \<Rightarrow> bytes \<Rightarrow> error + Serial" where
  "serial_write s data =
     (if port_is_open s
      then Inr (s\<lparr>tx := tx s @ [data], rx := rx s @ instrument s (tx s @ [data])\<rparr>)
      else Inl PortNotOpenError)"

definition LF :: char where
  "LF = CHR 0x0A"

definition read_until_lf :: "bytes \<Rightarrow> bytes \<times> bytes" where
  "read_until_lf bs =
     (case dropWhile (\<lambda>b. b \<noteq> LF) bs of
        [] \<Rightarrow> (bs, [])
      | b # rest \<Rightarrow> (takeWhile (\<lambda>b. b \<noteq> LF) bs @ [b], rest))"

definition serial_readline :: "Serial \<Rightarrow> error + (Serial \<times> bytes)" where
  "serial_readline s =
     (if port_is_open s
      then (let (line, rest) = read_until_lf (rx s) in Inr (s\<lparr>rx := rest\<rparr>, line))
      else Inl PortNotOpenError)"

section \<open>The controller\<close>

record PSWController =
  ser :: "Serial option"
  target_v :: pyfloat
  target_i :: pyfloat

text \<open>
  A method takes the controller and returns the controller it leaves behind together
  with its outcome: \<open>Inl\<close> the exception raised, \<open>Inr\<close> the value returned.
\<close>

definition init :: PSWController where
  "init = \<lparr>ser = None, target_v = Fin 0, target_i = Fin 0\<rparr>"

text \<open>\<open>close\<close> closes the port if there is an open one and forgets the serial object.\<close>

definition close :: "PSWController \<Rightarrow> PSWController" where
  "close c = c\<lparr>ser := None\<rparr>"

definition is_open :: "PSWController \<Rightarrow> bool" where
  "is_open c = (case ser c of None \<Rightarrow> False | Some s \<Rightarrow> port_is_open s)"

text \<open>The method \<open>_write\<close>.\<close>

definition private_write :: "PSWController \<Rightarrow> string \<Rightarrow> PSWController \<times> (error + unit)" where
  "private_write c cmd =
     (if \<not> is_open c then (c, Inl (RuntimeError ''Serial port not open''))
      else case encode_ascii (cmd @ CRLF) of
             Inl e \<Rightarrow> (c, Inl e)
           | Inr line \<Rightarrow>
               (case ser c of
                  None \<Rightarrow> (c, Inl AttributeError)
                | Some s \<Rightarrow>
                    (case serial_write s line of
                       Inl e \<Rightarrow> (c, Inl e)
                     | Inr s' \<Rightarrow> (c\<lparr>ser := Some s'\<rparr>, Inr ()))))"

text \<open>The method \<open>_readline\<close>.\<close>

definition private_readline :: "PSWController \<Rightarrow> PSWController \<times> (error + string)" where
  "private_readline c =
     (if \<not> is_open c then (c, Inl (RuntimeError ''Serial port not open''))
      else case ser c of
             None \<Rightarrow> (c, Inl AttributeError)
           | Some s \<Rightarrow>
               (case serial_readline s of
                  Inl e \<Rightarrow> (c, Inl e)
                | Inr (s', data) \<Rightarrow>
                    (c\<lparr>ser := Some s'\<rparr>, Inr (strip (decode_ascii_ignore data)))))"

definition query :: "PSWController \<Rightarrow> string \<Rightarrow> PSWController \<times> (error + string)" where
  "query c cmd =
     (case private_write c cmd of
        (c', Inl e) \<Rightarrow> (c', Inl e)
      | (c', Inr u) \<Rightarrow> private_readline c')"

definition get_idn :: "PSWController \<Rightarrow> PSWController \<times> (error + string)" where
  "get_idn c = query c ''*IDN?''"

definition apply_vi :: "PSWController \<Rightarrow> PSWController \<times> (error + unit)" where
  "apply_vi c =
     private_write c (''APPLy '' @ format_4f (target_v c) @ '','' @ format_4f (target_i c))"

definition set_voltage :: "PSWController \<Rightarrow> pyfloat \<Rightarrow> PSWController \<times> (error + unit)" where
  "set_voltage c v = apply_vi (c\<lparr>target_v := v\<rparr>)"

definition set_current :: "PSWController \<Rightarrow> pyfloat \<Rightarrow> PSWController \<times> (error + unit)" where
  "set_current c i = apply_vi (c\<lparr>target_i := i\<rparr>)"

definition output_on :: "PSWController \<Rightarrow> PSWController \<times> (error + unit)" where
  "output_on c = private_write c ''OUTPut:STATe ON''"

definition output_off :: "PSWController \<Rightarrow> PSWController \<times> (error + unit)" where
  "output_off c = private_write c ''OUTPut:STATe OFF''"

definition set_remote :: "PSWController \<Rightarrow> bool \<Rightarrow> PSWController \<times> (error + unit)" where
  "set_remote c remote =
     (if remote then private_write c ''SYSTem:REMote'' else private_write c ''SYSTem:LOCal'')"

definition set_ovp :: "PSWController \<Rightarrow> pyfloat \<Rightarrow> PSWController \<times> (error + unit)" where
  "set_ovp c v = private_write c (''SOURce:VOLTage:PROTection:LEVel '' @ format_4f v)"

definition disable_ovp :: "PSWController \<Rightarrow> PSWController \<times> (error + unit)" where
  "disable_ovp c = private_write c ''SOURce:VOLTage:PROTection:LEVel MAX''"

definition set_ocp :: "PSWController \<Rightarrow> pyfloat \<Rightarrow> PSWController \<times> (error + unit)" where
  "set_ocp c i = private_write c (''SOURce:CURRent:PROTection:LEVel '' @ format_4f i)"

definition disable_ocp :: "PSWController \<Rightarrow> PSWController \<times> (error + unit)" where
  "disable_ocp c = private_write c ''SOURce:CURRent:PROTection:LEVel MAX''"

definition get_ovp :: "PSWController \<Rightarrow> PSWController \<times> (error + pyfloat)" where
  "get_ovp c =
     (case query c ''SOURce:VOLTage:PROTection:LEVel?'' of
        (c', Inl e) \<Rightarrow> (c', Inl e)
      | (c', Inr reply) \<Rightarrow>
          (case py_float reply of Inl e \<Rightarrow> (c', Inl e) | Inr x \<Rightarrow> (c', Inr x)))"

definition get_ocp :: "PSWController \<Rightarrow> PSWController \<times> (error + pyfloat)" where
  "get_ocp c =
     (case query c ''SOURce:CURRent:PROTection:LEVel?'' of
        (c', Inl e) \<Rightarrow> (c', Inl e)
      | (c', Inr reply) \<Rightarrow>
          (case py_float reply of Inl e \<Rightarrow> (c', Inl e) | Inr x \<Rightarrow> (c', Inr x)))"

text \<open>
  The body of the \<open>try\<close> block of \<open>measure_all\<close>: unpacking the split reply into two
  names raises \<open>ValueError\<close> unless it has exactly two parts.
\<close>

definition measure_all_try :: "string \<Rightarrow> error + (pyfloat \<times> pyfloat)" where
  "measure_all_try reply =
     (case split_on (CHR '','') reply of
        [v_str, i_str] \<Rightarrow>
          (case py_float v_str of
             Inl e \<Rightarrow> Inl e
           | Inr v \<Rightarrow> (case py_float i_str of Inl e \<Rightarrow> Inl e | Inr i \<Rightarrow> Inr (v, i)))
      | _ \<Rightarrow> Inl ValueError)"

definition measure_all ::
  "PSWController \<Rightarrow> PSWController \<times> (error + (pyfloat option \<times> pyfloat option \<times> string))" where
  "measure_all c =
     (case query c ''MEASure:SCALar:ALL?'' of
        (c', Inl e) \<Rightarrow> (c', Inl e)
      | (c', Inr reply) \<Rightarrow>
          (case measure_all_try reply of
             Inr (v, i) \<Rightarrow> (c', Inr (Some v, Some i, reply))
           | Inl e \<Rightarrow> (c', Inr (None, None, reply))))"

text \<open>Python's \<open>&\<close> on unbounded integers is the two's complement conjunction of \<open>int\<close>.\<close>

definition get_protection_status ::
  "PSWController \<Rightarrow> PSWController \<times> (error + (bool \<times> bool \<times> int))" where
  "get_protection_status c =
     (case query c ''STATus:QUEStionable:CONDition?'' of
        (c', Inl e) \<Rightarrow> (c', Inl e)
      | (c', Inr reply) \<Rightarrow>
          (case py_int reply of
             Inl e \<Rightarrow> (c', Inl e)
           | Inr s \<Rightarrow> (c', Inr (and s 1 \<noteq> 0, and s 2 \<noteq> 0, s))))"

section \<open>Vocabulary of the properties\<close>

text \<open>
  A text with exactly four digits after the decimal point: an optional minus sign, at
  least one digit, the point, four digits.
\<close>

definition four_decimals :: "string \<Rightarrow> bool" where
  "four_decimals s =
     (let t = (case s of [] \<Rightarrow> s | c # r \<Rightarrow> if c = CHR ''-'' then r else s)
      in takeWhile isdigit t \<noteq> []
         \<and> (case dropWhile isdigit t of
              [] \<Rightarrow> False
            | c # fp \<Rightarrow> c = CHR ''.'' \<and> length fp = 4 \<and> list_all isdigit fp))"

text \<open>
  The number that such a text denotes, and the number that a finite float is (both
  zeros are 0).
\<close>

definition decimal_value :: "string \<Rightarrow> rat" where
  "decimal_value s =
     (let neg = (case s of [] \<Rightarrow> False | c # r \<Rightarrow> c = CHR ''-'');
          t = (if neg then tl s else s);
          ip = takeWhile isdigit t;
          fp = drop (Suc (length ip)) t
      in (if neg then - 1 else 1)
         * (of_nat (digits_value ip) + of_nat (digits_value fp) / 10 ^ length fp))"

definition float_value :: "pyfloat \<Rightarrow> rat" where
  "float_value x = (case x of Fin q \<Rightarrow> q | _ \<Rightarrow> 0)"

text \<open>
  A transport for testing: the port is open, nothing has been written or received, and
  the instrument answers every write with the same bytes.
\<close>

definition scripted :: "bytes \<Rightarrow> Serial" where
  "scripted reply = \<lparr>port_is_open = True, tx = [], rx = [], instrument = (\<lambda>h. reply)\<rparr>"

definition bench :: "bytes \<Rightarrow> PSWController" where
  "bench reply = \<lparr>ser = Some (scripted reply), target_v = Fin 5, target_i = Fin 1\<rparr>"

definition receiving :: "bytes \<Rightarrow> PSWController" where
  "receiving pending =
     \<lparr>ser = Some \<lparr>port_is_open = True, tx = [], rx = pending, instrument = (\<lambda>h. [])\<rparr>,
      target_v = Fin 5, target_i = Fin 1\<rparr>"

text \<open>The byte string of the latest \<open>write\<close> on the controller's port, if there is one.\<close>

definition last_tx :: "PSWController \<Rightarrow> bytes option" where
  "last_tx c =
     (case ser c of
        None \<Rightarrow> None
      | Some s \<Rightarrow> if tx s = [] then None else Some (last (tx s)))"

text \<open>
  The outcome \<open>r\<close> of a method called on \<open>c\<close> is the exception raised for a port that
  is not open, and the serial object is the one of \<open>c\<close>: nothing was written.
\<close>

definition not_connected :: "PSWController \<Rightarrow> PSWController \<times> (error + 'a) \<Rightarrow> bool" where
  "not_connected c r =
     (snd r = Inl (RuntimeError ''Serial port not open'') \<and> ser (fst r) = ser c)"

text \<open>
  The specification's wording of \<open>receive_line\<close>: the bytes decoded permissively, with
  the trailing whitespace stripped.
\<close>

definition receive_line_spec :: "bytes \<Rightarrow> string" where
  "receive_line_spec data = rstrip (decode_ascii_ignore data)"


text \<open>
  An instrument that echoes the protection level: it answers the level query with the
  argument of the latest level command written before it, and stays silent otherwise.
\<close>

definition ovp_level :: string where
  "ovp_level = ''SOURce:VOLTage:PROTection:LEVel''"

definition ovp_echo :: "bytes list \<Rightarrow> bytes" where
  "ovp_echo h =
     (case rev h of
        [] \<Rightarrow> []
      | q # earlier \<Rightarrow>
          if q = ovp_level @ ''?'' @ CRLF
          then (case filter (\<lambda>l. take (Suc (length ovp_level)) l = ovp_level @ '' '') earlier of
                  [] \<Rightarrow> []
                | l # older \<Rightarrow> drop (Suc (length ovp_level)) l)
          else [])"

section \<open>Auxiliary facts\<close>

subsection \<open>Digits and the four-decimal format\<close>

lemma digit_char_cases: "k < 10 \<Longrightarrow> isdigit (''0123456789'' ! k)"
  by (auto simp: numeral_eq_Suc less_Suc_eq isdigit_def)

lemma isdigit_digit_char: "isdigit (digit_char d)"
  by (simp add: digit_char_def digit_char_cases)

lemma dec_str_digits: "list_all isdigit (dec_str n)"
  by (induction n rule: dec_str.induct) (subst dec_str.simps, simp add: isdigit_digit_char)

lemma dec_str_nonempty: "dec_str n \<noteq> []"
  by (subst dec_str.simps) simp

lemma length_dec_str: "n < 10 ^ k \<Longrightarrow> 0 < k \<Longrightarrow> length (dec_str n) \<le> k"
proof (induction n arbitrary: k rule: dec_str.induct)
  case (1 n)
  show ?case
  proof (cases "n < 10")
    case True
    then show ?thesis using "1.prems" by (subst dec_str.simps) simp
  next
    case False
    obtain j where k: "k = Suc j" using "1.prems"(2) by (cases k) auto
    have j: "0 < j" using False "1.prems"(1) k by (cases j) auto
    have "n div 10 < 10 ^ j" using "1.prems"(1) k by (simp add: less_mult_imp_div_less mult.commute)
    then have "length (dec_str (n div 10)) \<le> j" using "1.IH"[OF False _ j] by simp
    then show ?thesis using False k by (subst dec_str.simps) simp
  qed
qed

lemma isdigit_is_ascii: "isdigit c \<Longrightarrow> is_ascii c"
  by (simp add: isdigit_def is_ascii_def Let_def)

lemma digits_ascii: "list_all isdigit s \<Longrightarrow> list_all is_ascii s"
  by (induction s) (auto simp: isdigit_is_ascii)

lemma zfill4_digits: "list_all isdigit s \<Longrightarrow> list_all isdigit (zfill4 s)"
  by (auto simp: zfill4_def list_all_iff isdigit_def)

lemma dec_str_ascii: "list_all is_ascii (dec_str n)"
  by (simp add: digits_ascii dec_str_digits)

lemma zfill4_dec_str_ascii: "list_all is_ascii (zfill4 (dec_str n))"
  by (simp add: digits_ascii dec_str_digits zfill4_digits)

lemma format_4f_ascii: "list_all is_ascii (format_4f x)"
  by (cases x)
     (simp_all add: format_4f_def Let_def dec_str_ascii zfill4_dec_str_ascii,
      simp_all add: is_ascii_def)

lemma takeWhile_digits_dot:
  "list_all isdigit ds \<Longrightarrow> takeWhile isdigit (ds @ CHR ''.'' # r) = ds"
  by (induction ds) (auto simp: isdigit_def)

lemma dropWhile_digits_dot:
  "list_all isdigit ds \<Longrightarrow> dropWhile isdigit (ds @ CHR ''.'' # r) = CHR ''.'' # r"
  by (induction ds) (auto simp: isdigit_def)

lemma length_zfill4: "length s \<le> 4 \<Longrightarrow> length (zfill4 s) = 4"
  by (simp add: zfill4_def)

lemma four_decimals_shape:
  assumes "list_all isdigit ip" "ip \<noteq> []" "list_all isdigit fp" "length fp = 4"
  shows "four_decimals (ip @ CHR ''.'' # fp)" "four_decimals (CHR ''-'' # ip @ CHR ''.'' # fp)"
proof -
  have nm: "hd ip \<noteq> CHR ''-''" using assms(1,2) by (cases ip) (auto simp: isdigit_def)
  show "four_decimals (CHR ''-'' # ip @ CHR ''.'' # fp)"
    using assms by (simp add: four_decimals_def takeWhile_digits_dot dropWhile_digits_dot)
  have t: "(case ip @ CHR ''.'' # fp of [] \<Rightarrow> ip @ CHR ''.'' # fp
             | c # r \<Rightarrow> if c = CHR ''-'' then r else ip @ CHR ''.'' # fp) = ip @ CHR ''.'' # fp"
    using nm assms(2) by (cases ip) auto
  show "four_decimals (ip @ CHR ''.'' # fp)"
    unfolding four_decimals_def t using assms
    by (simp add: takeWhile_digits_dot dropWhile_digits_dot)
qed

lemma four_decimals_format: "isfinite x \<Longrightarrow> four_decimals (format_4f x)"
proof (cases x)
  case (Fin q)
  define n where "n = nat (round_half_even (\<bar>q\<bar> * 10000))"
  have l: "length (zfill4 (dec_str (n mod 10000))) = 4"
    by (rule length_zfill4, rule length_dec_str[of _ 4, simplified]) simp
  have d: "list_all isdigit (zfill4 (dec_str (n mod 10000)))"
    by (simp add: zfill4_digits dec_str_digits)
  show ?thesis
    using four_decimals_shape[OF dec_str_digits dec_str_nonempty d l, of "n div 10000"]
    by (cases "q < 0") (simp_all add: Fin format_4f_def Let_def n_def)
next
  case NegZero
  then show ?thesis by (simp add: format_4f_def four_decimals_def isdigit_def)
qed (simp_all add: isfinite_def)

lemma private_write_open:
  assumes "ser c = Some s" "port_is_open s" "list_all is_ascii cmd"
  shows "private_write c cmd =
           (c\<lparr>ser := Some (s\<lparr>tx := tx s @ [cmd @ CRLF],
                               rx := rx s @ instrument s (tx s @ [cmd @ CRLF])\<rparr>)\<rparr>, Inr ())"
  using assms
  by (simp add: private_write_def is_open_def encode_ascii_def serial_write_def CRLF_def
      is_ascii_def)

lemma floor_rat_numeral: "\<lfloor>numeral a / numeral b :: rat\<rfloor> = numeral a div numeral b"
  using floor_divide_of_int_eq[of "numeral a" "numeral b", where ?'a = rat] by simp

lemma replicate_numeral: "replicate (numeral k) x = x # replicate (pred_numeral k) x"
  by (simp add: numeral_eq_Suc)

lemmas format_eval = format_4f_def round_half_even_def zfill4_def dec_str.simps digit_char_def
  floor_rat_numeral replicate_numeral

lemma private_write_closed:
  "\<not> is_open c \<Longrightarrow> private_write c cmd = (c, Inl (RuntimeError ''Serial port not open''))"
  by (simp add: private_write_def)

lemma private_write_target_v: "target_v (fst (private_write c cmd)) = target_v c"
  by (simp add: private_write_def split: sum.splits option.splits)

lemma private_write_target_i: "target_i (fst (private_write c cmd)) = target_i c"
  by (simp add: private_write_def split: sum.splits option.splits)

lemma query_closed:
  "\<not> is_open c \<Longrightarrow> query c cmd = (c, Inl (RuntimeError ''Serial port not open''))"
  by (simp add: query_def private_write_closed)

subsection \<open>Stripping and reading a line\<close>

lemma strip_split:
  "s = takeWhile isspace s @ strip s @ rev (takeWhile isspace (rev (dropWhile isspace s)))"
proof -
  have "dropWhile isspace s = strip s @ rev (takeWhile isspace (rev (dropWhile isspace s)))"
    unfolding strip_def rstrip_def lstrip_def
    by (metis rev_append rev_rev_ident takeWhile_dropWhile_id)
  then show ?thesis
    by (metis takeWhile_dropWhile_id)
qed

lemma strip_ends:
  assumes "strip s \<noteq> []"
  shows "\<not> isspace (hd (strip s))" "\<not> isspace (last (strip s))"
proof -
  let ?d = "dropWhile isspace s"
  have r: "dropWhile isspace (rev ?d) \<noteq> []"
    using assms by (simp add: strip_def rstrip_def lstrip_def)
  then have "\<not> isspace (hd (dropWhile isspace (rev ?d)))"
    by (rule hd_dropWhile)
  then show "\<not> isspace (last (strip s))"
    using r by (simp add: strip_def rstrip_def lstrip_def last_rev)
  have d: "?d \<noteq> []" using r by (cases "dropWhile isspace s") simp_all
  then have h: "\<not> isspace (hd ?d)" by (rule hd_dropWhile)
  have "strip s @ rev (takeWhile isspace (rev ?d)) = ?d"
    unfolding strip_def rstrip_def lstrip_def
    by (metis rev_append rev_rev_ident takeWhile_dropWhile_id)
  then have "hd (strip s) = hd ?d"
    using assms by (metis hd_append2)
  then show "\<not> isspace (hd (strip s))" using h by simp
qed

lemma private_readline_open:
  assumes "ser c = Some s" and "port_is_open s"
  shows "private_readline c =
           (c\<lparr>ser := Some (s\<lparr>rx := snd (read_until_lf (rx s))\<rparr>)\<rparr>,
            Inr (strip (decode_ascii_ignore (fst (read_until_lf (rx s))))))"
  using assms
  by (simp add: private_readline_def is_open_def serial_readline_def split: prod.splits)

lemmas strip_eval = strip_def lstrip_def rstrip_def isspace_def

lemmas c_strip_eval = c_strip_def c_isspace_def

subsection \<open>Decimal texts read back by \<open>int\<close>\<close>

lemma dropWhile_none: "\<forall>c\<in>set s. \<not> P c \<Longrightarrow> dropWhile P s = s"
  by (cases s) auto

lemma digit_not_space: "isdigit c \<Longrightarrow> \<not> c_isspace c"
  by (simp add: isdigit_def c_isspace_def Let_def)

lemma c_strip_digits: "list_all isdigit s \<Longrightarrow> c_strip s = s"
  by (simp add: c_strip_def dropWhile_none list_all_iff digit_not_space)

lemma split_sign_digits: "list_all isdigit s \<Longrightarrow> split_sign s = (False, s)"
  by (cases s) (auto simp: split_sign_def isdigit_def)

lemma is_digitpart_digits: "list_all isdigit s \<Longrightarrow> s \<noteq> [] \<Longrightarrow> is_digitpart s"
  by (induction s rule: is_digitpart.induct) (auto simp: isdigit_def)

lemma filter_underscore_digits: "list_all isdigit s \<Longrightarrow> filter (\<lambda>c. c \<noteq> CHR ''_'') s = s"
  by (induction s) (auto simp: isdigit_def)

lemma digit_val_cases: "k < 10 \<Longrightarrow> digit_val (''0123456789'' ! k) = k"
  by (auto simp: numeral_eq_Suc less_Suc_eq digit_val_def)

lemma digit_val_digit_char: "digit_val (digit_char d) = d mod 10"
  by (simp add: digit_char_def digit_val_cases)

lemma digits_value_snoc: "digits_value (ds @ [c]) = 10 * digits_value ds + digit_val c"
  by (simp add: digits_value_def)

lemma digits_value_dec_str: "digits_value (dec_str n) = n"
proof (induction n rule: dec_str.induct)
  case (1 n)
  show ?case
  proof (cases "n < 10")
    case True
    then show ?thesis
      by (subst dec_str.simps) (simp add: digits_value_def digit_val_digit_char)
  next
    case False
    then show ?thesis
      using "1.IH" by (subst dec_str.simps) (simp add: digits_value_snoc digit_val_digit_char)
  qed
qed

lemma py_int_dec_str:
  "length (dec_str n) \<le> max_str_digits \<Longrightarrow> py_int (dec_str n) = Inr (int n)"
  by (simp add: py_int_def c_strip_digits split_sign_digits is_digitpart_digits
      filter_underscore_digits digits_value_dec_str dec_str_digits dec_str_nonempty)

lemma py_int_too_long:
  "max_str_digits < length (dec_str n) \<Longrightarrow> py_int (dec_str n) = Inl ValueError"
  by (simp add: py_int_def c_strip_digits split_sign_digits filter_underscore_digits
      dec_str_digits)

lemma dec_str_times_10: "0 < m \<Longrightarrow> dec_str (10 * m) = dec_str m @ [digit_char 0]"
  by (subst dec_str.simps) simp

lemma length_dec_str_pow10: "length (dec_str (10 ^ k)) = Suc k"
proof (induction k)
  case 0
  show ?case by (subst dec_str.simps) simp
next
  case (Suc k)
  then show ?case using dec_str_times_10[of "10 ^ k"] by simp
qed

lemma and_one_bit: "(and (int n) 1 \<noteq> 0) = bit n 0"
  by (simp add: and_one_eq bit_0 mod2_eq_if)

lemma and_two_bit: "(and (int n) 2 \<noteq> 0) = bit n 1"
  using and_exp_eq_0_iff_not_bit[of "int n" 1] by (simp add: bit_of_nat_iff_bit)

subsection \<open>The number denoted by the four-decimal format\<close>

lemma round_half_even_near: "\<bar>of_int (round_half_even x) - x\<bar> \<le> 1 / 2"
proof -
  have "of_int \<lfloor>x\<rfloor> \<le> x" "x < of_int \<lfloor>x\<rfloor> + 1" by linarith+
  then show ?thesis
    by (auto simp: round_half_even_def Let_def)
qed

lemma round_half_even_nonneg: "0 \<le> x \<Longrightarrow> 0 \<le> round_half_even x"
proof -
  assume "0 \<le> x"
  then have "0 \<le> \<lfloor>x\<rfloor>" by simp
  then show ?thesis by (auto simp: round_half_even_def Let_def)
qed

lemma digits_value_zeros: "digits_value (replicate k (CHR ''0'') @ ds) = digits_value ds"
proof -
  have "foldl (\<lambda>a c. 10 * a + digit_val c) 0 (replicate k (CHR ''0'')) = 0"
    by (induction k) (simp_all add: digit_val_def)
  then show ?thesis by (simp add: digits_value_def)
qed

lemma digits_value_zfill4: "digits_value (zfill4 (dec_str n)) = n"
  by (simp add: zfill4_def digits_value_zeros digits_value_dec_str)

lemma decimal_value_shape:
  assumes "list_all isdigit ip" "ip \<noteq> []"
  shows "decimal_value (ip @ CHR ''.'' # fp)
           = of_nat (digits_value ip) + of_nat (digits_value fp) / 10 ^ length fp"
    and "decimal_value (CHR ''-'' # ip @ CHR ''.'' # fp)
           = - (of_nat (digits_value ip) + of_nat (digits_value fp) / 10 ^ length fp)"
proof -
  have nm: "hd ip \<noteq> CHR ''-''" using assms by (cases ip) (auto simp: isdigit_def)
  have n: "(case ip @ CHR ''.'' # fp of [] \<Rightarrow> False | c # r \<Rightarrow> c = CHR ''-'') = False"
    using nm assms(2) by (cases ip) auto
  show "decimal_value (ip @ CHR ''.'' # fp)
           = of_nat (digits_value ip) + of_nat (digits_value fp) / 10 ^ length fp"
    unfolding decimal_value_def n using assms(1)
    by (simp add: takeWhile_digits_dot)
  show "decimal_value (CHR ''-'' # ip @ CHR ''.'' # fp)
           = - (of_nat (digits_value ip) + of_nat (digits_value fp) / 10 ^ length fp)"
    using assms(1) by (simp add: decimal_value_def takeWhile_digits_dot)
qed

lemma decimal_value_format: "\<bar>decimal_value (format_4f (Fin q)) - q\<bar> \<le> 1 / 20000"
proof -
  define n where "n = nat (round_half_even (\<bar>q\<bar> * 10000))"
  have l: "length (zfill4 (dec_str (n mod 10000))) = 4"
    by (rule length_zfill4, rule length_dec_str[of _ 4, simplified]) simp
  have "0 \<le> round_half_even (\<bar>q\<bar> * 10000)"
    by (rule round_half_even_nonneg) simp
  then have "of_nat n = (of_int (round_half_even (\<bar>q\<bar> * 10000)) :: rat)"
    by (simp add: n_def)
  then have near: "\<bar>of_nat n - \<bar>q\<bar> * 10000\<bar> \<le> 1 / 2"
    using round_half_even_near[of "\<bar>q\<bar> * 10000"] by simp
  have "n = (n div 10000) * 10000 + n mod 10000" by simp
  then have "(of_nat n :: rat) = of_nat (n div 10000) * 10000 + of_nat (n mod 10000)"
    by (metis of_nat_add of_nat_mult of_nat_numeral)
  then have v: "of_nat (n div 10000) + of_nat (n mod 10000) / 10 ^ 4 = (of_nat n :: rat) / 10000"
    by simp
  have m: "\<bar>(of_nat n :: rat) / 10000 - \<bar>q\<bar>\<bar> \<le> 1 / 20000"
    using near by (simp add: field_simps abs_le_iff)
  have f: "format_4f (Fin q) = (if q < 0 then ''-'' else []) @ dec_str (n div 10000) @ ''.''
             @ zfill4 (dec_str (n mod 10000))"
    by (simp add: format_4f_def Let_def n_def)
  have d: "of_nat (digits_value (dec_str (n div 10000)))
             + of_nat (digits_value (zfill4 (dec_str (n mod 10000))))
               / 10 ^ length (zfill4 (dec_str (n mod 10000))) = (of_nat n :: rat) / 10000"
    unfolding l digits_value_dec_str digits_value_zfill4 using v by simp
  show ?thesis
  proof (cases "q < 0")
    case True
    have "format_4f (Fin q) = CHR ''-'' # dec_str (n div 10000) @ CHR ''.''
             # zfill4 (dec_str (n mod 10000))"
      using True by (simp add: f)
    then have "decimal_value (format_4f (Fin q)) = - ((of_nat n :: rat) / 10000)"
      using decimal_value_shape(2)[OF dec_str_digits dec_str_nonempty,
          of "n div 10000" "zfill4 (dec_str (n mod 10000))"] d
      by simp
    then show ?thesis using m True by linarith
  next
    case False
    have "format_4f (Fin q) = dec_str (n div 10000) @ CHR ''.''
             # zfill4 (dec_str (n mod 10000))"
      using False by (simp add: f)
    then have "decimal_value (format_4f (Fin q)) = (of_nat n :: rat) / 10000"
      using decimal_value_shape(1)[OF dec_str_digits dec_str_nonempty,
          of "n div 10000" "zfill4 (dec_str (n mod 10000))"] d
      by simp
    then show ?thesis using m False by linarith
  qed
qed

lemma decimal_value_finite:
  "isfinite x \<Longrightarrow> \<bar>decimal_value (format_4f x) - float_value x\<bar> \<le> 1 / 20000"
proof (cases x)
  case (Fin q)
  then show ?thesis using decimal_value_format[of q] by (simp add: float_value_def)
next
  case NegZero
  then show ?thesis
    by (simp add: format_4f_def float_value_def decimal_value_def isdigit_def digits_value_def
        digit_val_def)
qed (simp_all add: isfinite_def)

subsection \<open>Replies of the scripted transport\<close>

lemmas io_eval = query_def private_write_def private_readline_def is_open_def encode_ascii_def
  serial_write_def serial_readline_def read_until_lf_def decode_ascii_ignore_def is_ascii_def
  CRLF_def LF_def bench_def scripted_def

lemma query_bench_3:
  "query (bench (''3'' @ CRLF)) ''STATus:QUEStionable:CONDition?''
     = (\<lparr>ser = Some \<lparr>port_is_open = True, tx = [''STATus:QUEStionable:CONDition?'' @ CRLF],
                     rx = [], instrument = (\<lambda>h. ''3'' @ CRLF)\<rparr>,
         target_v = Fin 5, target_i = Fin 1\<rparr>, Inr ''3'')"
  by (simp add: io_eval strip_eval)


subsection \<open>Queries on an open port\<close>

lemma query_open:
  assumes "ser c = Some s" and "port_is_open s" and "list_all is_ascii cmd"
    and "s1 = s\<lparr>tx := tx s @ [cmd @ CRLF], rx := rx s @ instrument s (tx s @ [cmd @ CRLF])\<rparr>"
  shows "query c cmd =
           (c\<lparr>ser := Some (s1\<lparr>rx := snd (read_until_lf (rx s1))\<rparr>)\<rparr>,
            Inr (strip (decode_ascii_ignore (fst (read_until_lf (rx s1))))))"
proof -
  have w: "private_write c cmd = (c\<lparr>ser := Some s1\<rparr>, Inr ())"
    using private_write_open[OF assms(1-3)] assms(4) by simp
  have o: "ser (c\<lparr>ser := Some s1\<rparr>) = Some s1" "port_is_open s1"
    using assms(2,4) by simp_all
  show ?thesis
    using private_readline_open[OF o] by (simp add: query_def w)
qed

lemma isdigit_not_isspace: "isdigit c \<Longrightarrow> \<not> isspace c"
  by (simp add: isdigit_def isspace_def Let_def)

lemma read_until_lf_crlf:
  assumes "\<forall>c\<in>set t. c \<noteq> LF"
  shows "read_until_lf (t @ CRLF) = (t @ CRLF, [])"
proof -
  have d: "dropWhile (\<lambda>b. b \<noteq> LF) (t @ CRLF) = [LF]"
    using assms by (simp add: dropWhile_append2 CRLF_def LF_def)
  have k: "takeWhile (\<lambda>b. b \<noteq> LF) (t @ CRLF) = t @ [CHR 0x0D]"
    using assms by (simp add: takeWhile_append2 CRLF_def LF_def)
  show ?thesis
    by (simp add: read_until_lf_def d k) (simp add: CRLF_def LF_def)
qed

lemma strip_crlf:
  assumes "\<forall>c\<in>set t. \<not> isspace c"
  shows "strip (t @ CRLF) = t"
proof -
  have l: "dropWhile isspace (t @ CRLF) = (if t = [] then [] else t @ CRLF)"
    using assms by (cases t) (simp_all add: CRLF_def isspace_def)
  have r: "dropWhile isspace (rev (t @ CRLF)) = rev t"
    using assms by (simp add: CRLF_def isspace_def dropWhile_none)
  show ?thesis
    using r by (simp add: strip_def lstrip_def rstrip_def l)
qed

lemma reply_of_line:
  assumes "ser c = Some s" and "port_is_open s" and "list_all is_ascii cmd"
    and "rx s = []" and "instrument s (tx s @ [cmd @ CRLF]) = t @ CRLF"
    and "list_all is_ascii t" and "\<forall>c\<in>set t. \<not> isspace c"
  shows "query c cmd = (c\<lparr>ser := Some (s\<lparr>tx := tx s @ [cmd @ CRLF], rx := []\<rparr>)\<rparr>, Inr t)"
proof -
  have n: "\<forall>c\<in>set t. c \<noteq> LF"
    using assms(7) by (auto simp: isspace_def LF_def)
  have f: "filter is_ascii t = t" "filter is_ascii CRLF = CRLF"
    using assms(6) by (simp_all add: list_all_iff CRLF_def is_ascii_def)
  show ?thesis
    using query_open[OF assms(1-3) refl] assms(4,5)
    by (simp add: read_until_lf_crlf[OF n] decode_ascii_ignore_def f strip_crlf[OF assms(7)])
qed

lemma query_bench_digits:
  assumes "list_all isdigit ds" and "list_all is_ascii cmd"
  shows "snd (query (bench (ds @ CRLF)) cmd) = Inr ds"
proof -
  have "query (bench (ds @ CRLF)) cmd
          = ((bench (ds @ CRLF))\<lparr>ser := Some ((scripted (ds @ CRLF))\<lparr>tx := tx (scripted (ds @ CRLF)) @ [cmd @ CRLF], rx := []\<rparr>)\<rparr>, Inr ds)"
  proof (rule reply_of_line)
    show "list_all is_ascii ds" using assms(1) by (rule digits_ascii)
    show "\<forall>c\<in>set ds. \<not> isspace c"
      using assms(1) by (auto simp: list_all_iff isdigit_not_isspace)
  qed (simp_all add: bench_def scripted_def assms(2))
  then show ?thesis by simp
qed

lemma format_4f_no_space: "\<forall>c\<in>set (format_4f x). \<not> isspace c"
proof (cases x)
  case (Fin q)
  have d: "\<forall>c\<in>set (dec_str n). \<not> isspace c" for n
    using dec_str_digits[of n] by (auto simp: list_all_iff isdigit_not_isspace)
  have z: "\<forall>c\<in>set (zfill4 (dec_str n)). \<not> isspace c" for n
    using zfill4_digits[OF dec_str_digits, of n] by (auto simp: list_all_iff isdigit_not_isspace)
  show ?thesis
    using d z by (auto simp: Fin format_4f_def Let_def isspace_def)
qed (simp_all add: format_4f_def isspace_def)

lemma py_float_error: "py_float s = Inl e \<Longrightarrow> e = ValueError"
  by (auto simp: py_float_def Let_def split: if_splits prod.splits option.splits)

lemma measure_all_try_error: "measure_all_try reply = Inl e \<Longrightarrow> e = ValueError"
  by (auto simp: measure_all_try_def split: list.splits sum.splits dest: py_float_error)

lemmas float_eval = py_float_def c_strip_eval split_sign_def isdigit_def digits_value_def
  digit_val_def parse_floatnumber_def parse_exponent_def from_decimal_def round_binary64_def
  floor_log2_def ilog2.simps rhe_div_def lower_code_def negate_def

lemma py_float_12_34:
  "py_float ''12.3400'' = Inr (Fin (6946802425218990 / 2 ^ 49))"
  "py_float ''12.34'' = Inr (Fin (6946802425218990 / 2 ^ 49))"
  by (simp_all add: float_eval)

lemma py_float_0_5: "py_float ''0.5000'' = Inr (Fin (1 / 2))" "py_float ''0.5'' = Inr (Fin (1 / 2))"
  by (simp_all add: float_eval)

lemma py_float_ERR: "py_float ''ERR'' = Inl ValueError"
  by (simp add: float_eval)

lemma query_bench_measure:
  "query (bench (''12.3400,0.5000'' @ CRLF)) ''MEASure:SCALar:ALL?''
     = (\<lparr>ser = Some \<lparr>port_is_open = True, tx = [''MEASure:SCALar:ALL?'' @ CRLF],
                     rx = [], instrument = (\<lambda>h. ''12.3400,0.5000'' @ CRLF)\<rparr>,
         target_v = Fin 5, target_i = Fin 1\<rparr>, Inr ''12.3400,0.5000'')"
  "query (bench (''ERR'' @ CRLF)) ''MEASure:SCALar:ALL?''
     = (\<lparr>ser = Some \<lparr>port_is_open = True, tx = [''MEASure:SCALar:ALL?'' @ CRLF],
                     rx = [], instrument = (\<lambda>h. ''ERR'' @ CRLF)\<rparr>,
         target_v = Fin 5, target_i = Fin 1\<rparr>, Inr ''ERR'')"
  by (simp_all add: io_eval strip_eval)

lemma format_15: "format_4f (Fin 15) = ''15.0000''"
  by (simp add: format_eval)

lemma py_float_15: "py_float ''15.0000'' = Inr (Fin 15)"
  by (simp add: float_eval)

section \<open>Setpoints\<close>

text \<open>
  C1, for finite setpoints.  On an open controller, \<open>set_voltage v\<close> followed by
  \<open>set_current i\<close> with finite non-negative floats both succeed, the last byte string
  written is the command \<open>APPLy\<close> with \<open>v\<close> and \<open>i\<close> in the format \<open>:.4f\<close> and the
  terminator, each of the two texts has exactly four digits after the decimal point and
  denotes its float to within half a unit of the fourth decimal, and the setpoints of
  the controller are \<open>v\<close> and \<open>i\<close>.
\<close>

theorem apply_after_both_setpoints:
  assumes "ser c = Some s" and "port_is_open s"
    and "isfinite v" and "ge_zero v" and "isfinite i" and "ge_zero i"
  shows "snd (set_voltage c v) = Inr ()
       \<and> snd (set_current (fst (set_voltage c v)) i) = Inr ()
       \<and> last_tx (fst (set_current (fst (set_voltage c v)) i))
           = Some (''APPLy '' @ format_4f v @ '','' @ format_4f i @ CRLF)
       \<and> four_decimals (format_4f v) \<and> four_decimals (format_4f i)
       \<and> \<bar>decimal_value (format_4f v) - float_value v\<bar> \<le> 1 / 20000
       \<and> \<bar>decimal_value (format_4f i) - float_value i\<bar> \<le> 1 / 20000
       \<and> target_v (fst (set_current (fst (set_voltage c v)) i)) = v
       \<and> target_i (fst (set_current (fst (set_voltage c v)) i)) = i"
proof -
  define l1 where "l1 = ''APPLy '' @ format_4f v @ '','' @ format_4f (target_i c)"
  define l2 where "l2 = ''APPLy '' @ format_4f v @ '','' @ format_4f i"
  define s1 where "s1 = s\<lparr>tx := tx s @ [l1 @ CRLF], rx := rx s @ instrument s (tx s @ [l1 @ CRLF])\<rparr>"
  define s2 where "s2 = s1\<lparr>tx := tx s1 @ [l2 @ CRLF], rx := rx s1 @ instrument s1 (tx s1 @ [l2 @ CRLF])\<rparr>"
  have a: "list_all is_ascii l1" "list_all is_ascii l2"
    by (simp_all add: l1_def l2_def format_4f_ascii) (simp_all add: is_ascii_def)
  have o1: "port_is_open s1" using assms(2) by (simp add: s1_def)
  have 1: "set_voltage c v = (c\<lparr>target_v := v, ser := Some s1\<rparr>, Inr ())"
    using private_write_open[of "c\<lparr>target_v := v\<rparr>" s l1] assms(1,2) a(1)
    by (simp add: set_voltage_def apply_vi_def l1_def s1_def)
  have 2: "set_current (c\<lparr>target_v := v, ser := Some s1\<rparr>) i
             = (c\<lparr>target_v := v, target_i := i, ser := Some s2\<rparr>, Inr ())"
    using private_write_open[of "c\<lparr>target_v := v, ser := Some s1, target_i := i\<rparr>" s1 l2] o1 a(2)
    by (simp add: set_current_def apply_vi_def l2_def s2_def)
  have 3: "last_tx (c\<lparr>target_v := v, target_i := i, ser := Some s2\<rparr>) = Some (l2 @ CRLF)"
    by (simp add: last_tx_def s2_def)
  show ?thesis
    using assms(3,5) decimal_value_finite[of v] decimal_value_finite[of i]
    by (simp add: 1 2 3 l2_def four_decimals_format)
qed

theorem apply_after_both_setpoints_witness:
  "ser (bench []) = Some (scripted []) \<and> port_is_open (scripted [])
   \<and> isfinite (Fin (25 / 2)) \<and> ge_zero (Fin (25 / 2)) \<and> isfinite (Fin (1 / 32)) \<and> ge_zero (Fin (1 / 32))
   \<and> last_tx (fst (set_current (fst (set_voltage (bench []) (Fin (25 / 2)))) (Fin (1 / 32))))
       = Some (''APPLy 12.5000,0.0312'' @ CRLF)
   \<and> target_v (fst (set_current (fst (set_voltage (bench []) (Fin (25 / 2)))) (Fin (1 / 32)))) = Fin (25 / 2)
   \<and> target_i (fst (set_current (fst (set_voltage (bench []) (Fin (25 / 2)))) (Fin (1 / 32)))) = Fin (1 / 32)"
proof -
  have h: "ser (bench []) = Some (scripted [])" "port_is_open (scripted [])"
    "isfinite (Fin (25 / 2))" "ge_zero (Fin (25 / 2))" "isfinite (Fin (1 / 32))" "ge_zero (Fin (1 / 32))"
    by (simp_all add: bench_def scripted_def isfinite_def ge_zero_def)
  have f: "format_4f (Fin (25 / 2)) = ''12.5000''" "format_4f (Fin (1 / 32)) = ''0.0312''"
    by (simp_all add: format_eval)
  show ?thesis
    using h apply_after_both_setpoints[OF h] by (simp add: f)
qed

text \<open>
  Without the restriction to finite floats the format is not a four-decimal text:
  infinity is a float not below zero, and it is transmitted as \<open>inf\<close>.
\<close>

theorem infinite_setpoint_counterexample:
  "ge_zero PInf \<and> ge_zero (Fin 1)
   \<and> last_tx (fst (set_current (fst (set_voltage (bench []) PInf)) (Fin 1)))
       = Some (''APPLy inf,1.0000'' @ CRLF)
   \<and> \<not> four_decimals ''inf''"
  by (simp add: ge_zero_def set_voltage_def set_current_def apply_vi_def bench_def scripted_def
      private_write_def is_open_def encode_ascii_def serial_write_def CRLF_def is_ascii_def
      last_tx_def four_decimals_def isdigit_def format_eval)

text \<open>
  C4, for the closed connection.  When the connection is not open, \<open>set_voltage v\<close>
  fails and the controller it leaves behind has \<open>target_v\<close> set to the requested \<open>v\<close>
  and \<open>target_i\<close> as before; likewise \<open>set_current i\<close> fails and leaves \<open>target_i\<close> set
  to \<open>i\<close> and \<open>target_v\<close> as before.  The assignment comes before the transmission
  and is not undone.
\<close>

theorem failed_setpoint_keeps_request:
  assumes "\<not> is_open c"
  shows "snd (set_voltage c v) = Inl (RuntimeError ''Serial port not open'')
       \<and> target_v (fst (set_voltage c v)) = v
       \<and> target_i (fst (set_voltage c v)) = target_i c
       \<and> snd (set_current c i) = Inl (RuntimeError ''Serial port not open'')
       \<and> target_i (fst (set_current c i)) = i
       \<and> target_v (fst (set_current c i)) = target_v c"
proof -
  have v: "\<not> is_open (c\<lparr>target_v := v\<rparr>)" and i: "\<not> is_open (c\<lparr>target_i := i\<rparr>)"
    using assms by (simp_all add: is_open_def)
  show ?thesis
    by (simp add: set_voltage_def set_current_def apply_vi_def private_write_closed[OF v]
        private_write_closed[OF i])
qed

theorem failed_setpoint_keeps_request_witness:
  "\<not> is_open init
   \<and> snd (set_voltage init (Fin 5)) = Inl (RuntimeError ''Serial port not open'')
   \<and> target_v (fst (set_voltage init (Fin 5))) = Fin 5
   \<and> target_i (fst (set_voltage init (Fin 5))) = target_i init
   \<and> snd (set_current init (Fin 1)) = Inl (RuntimeError ''Serial port not open'')
   \<and> target_i (fst (set_current init (Fin 1))) = Fin 1
   \<and> target_v (fst (set_current init (Fin 1))) = target_v init"
proof -
  have h: "\<not> is_open init" by (simp add: is_open_def init_def)
  show ?thesis
    using h failed_setpoint_keeps_request[OF h, of "Fin 5" "Fin 1"] by simp
qed

text \<open>
  The setpoint is therefore not left unchanged by a failed transmission: on the
  controller that was never opened, \<open>set_voltage\<close> raises and \<open>target_v\<close> has gone from
  0 to 5.
\<close>

theorem failed_set_voltage_counterexample:
  "snd (set_voltage init (Fin 5)) = Inl (RuntimeError ''Serial port not open'')
   \<and> target_v init = Fin 0
   \<and> target_v (fst (set_voltage init (Fin 5))) = Fin 5"
  by (simp add: set_voltage_def apply_vi_def private_write_def is_open_def init_def)

text \<open>
  C10.  \<open>set_current\<close> leaves \<open>target_v\<close> as it was and \<open>set_voltage\<close> leaves \<open>target_i\<close>
  as it was, in every controller state, whether the command is transmitted or the method
  raises.
\<close>

theorem setpoint_frame:
  "target_v (fst (set_current c i)) = target_v c \<and> target_i (fst (set_voltage c v)) = target_i c"
  by (simp add: set_current_def set_voltage_def apply_vi_def private_write_target_v
      private_write_target_i)

section \<open>Operations on a port that is not open\<close>

text \<open>
  C3.  When \<open>is_open\<close> is false, every method that sends a command (the setpoints,
  output on and off, the identification, measurement and protection queries, remote
  and local, and the protection levels) raises the \<open>RuntimeError\<close> of \<open>_write\<close> for a
  port that is not open, which is the failure the specification names
  NotConnectedError, and the serial object is left as it was: nothing is written.
\<close>

theorem closed_port_refuses:
  assumes "\<not> is_open c"
  shows "not_connected c (set_voltage c v) \<and> not_connected c (set_current c i)
       \<and> not_connected c (output_on c) \<and> not_connected c (output_off c)
       \<and> not_connected c (get_idn c) \<and> not_connected c (measure_all c)
       \<and> not_connected c (get_protection_status c) \<and> not_connected c (set_remote c remote)
       \<and> not_connected c (set_ovp c v) \<and> not_connected c (get_ovp c)
       \<and> not_connected c (disable_ovp c) \<and> not_connected c (set_ocp c i)
       \<and> not_connected c (get_ocp c) \<and> not_connected c (disable_ocp c)"
proof -
  have v: "\<not> is_open (c\<lparr>target_v := v\<rparr>)" and i: "\<not> is_open (c\<lparr>target_i := i\<rparr>)"
    using assms by (simp_all add: is_open_def)
  show ?thesis
    using assms
    by (simp add: not_connected_def set_voltage_def set_current_def apply_vi_def output_on_def
        output_off_def get_idn_def measure_all_def get_protection_status_def set_remote_def
        set_ovp_def get_ovp_def disable_ovp_def set_ocp_def get_ocp_def disable_ocp_def
        query_closed private_write_closed[OF v] private_write_closed[OF i] private_write_closed)
qed

theorem closed_port_refuses_witness:
  "\<not> is_open init
   \<and> not_connected init (set_voltage init (Fin 5)) \<and> not_connected init (set_current init (Fin 1))
   \<and> not_connected init (output_on init) \<and> not_connected init (output_off init)
   \<and> not_connected init (get_idn init) \<and> not_connected init (measure_all init)
   \<and> not_connected init (get_protection_status init) \<and> not_connected init (set_remote init True)
   \<and> not_connected init (set_ovp init (Fin 5)) \<and> not_connected init (get_ovp init)
   \<and> not_connected init (disable_ovp init) \<and> not_connected init (set_ocp init (Fin 1))
   \<and> not_connected init (get_ocp init) \<and> not_connected init (disable_ocp init)"
proof -
  have h: "\<not> is_open init" by (simp add: is_open_def init_def)
  show ?thesis
    using h closed_port_refuses[OF h, of "Fin 5" "Fin 1" True] by simp
qed

section \<open>Protection levels\<close>

text \<open>
  C6, as the code has it.  On an open controller \<open>disable_ovp\<close> writes exactly the
  voltage protection level command with the token \<open>MAX\<close> and the terminator, whatever
  was sent before, and returns; the controller is otherwise as it was, its fields being
  the serial object and the two setpoints only.  \<open>disable_ocp\<close> does the same with the
  current protection level command.
\<close>

theorem disable_protection_sends_max:
  assumes "ser c = Some s" and "port_is_open s"
  shows "disable_ovp c =
           (c\<lparr>ser := Some (s\<lparr>tx := tx s @ [''SOURce:VOLTage:PROTection:LEVel MAX'' @ CRLF],
                 rx := rx s @ instrument s (tx s @ [''SOURce:VOLTage:PROTection:LEVel MAX'' @ CRLF])\<rparr>)\<rparr>,
            Inr ())
       \<and> disable_ocp c =
           (c\<lparr>ser := Some (s\<lparr>tx := tx s @ [''SOURce:CURRent:PROTection:LEVel MAX'' @ CRLF],
                 rx := rx s @ instrument s (tx s @ [''SOURce:CURRent:PROTection:LEVel MAX'' @ CRLF])\<rparr>)\<rparr>,
            Inr ())"
proof -
  have a: "list_all is_ascii ''SOURce:VOLTage:PROTection:LEVel MAX''"
    "list_all is_ascii ''SOURce:CURRent:PROTection:LEVel MAX''"
    by (simp_all add: is_ascii_def)
  show ?thesis
    using private_write_open[OF assms a(1)] private_write_open[OF assms a(2)]
    by (simp add: disable_ovp_def disable_ocp_def)
qed

theorem disable_protection_sends_max_witness:
  "ser (bench []) = Some (scripted []) \<and> port_is_open (scripted [])
   \<and> last_tx (fst (disable_ovp (bench []))) = Some (''SOURce:VOLTage:PROTection:LEVel MAX'' @ CRLF)
   \<and> last_tx (fst (disable_ocp (bench []))) = Some (''SOURce:CURRent:PROTection:LEVel MAX'' @ CRLF)
   \<and> snd (disable_ovp (bench [])) = Inr () \<and> snd (disable_ocp (bench [])) = Inr ()"
proof -
  have h: "ser (bench []) = Some (scripted [])" "port_is_open (scripted [])"
    by (simp_all add: bench_def scripted_def)
  show ?thesis
    using h disable_protection_sends_max[OF h] by (simp add: last_tx_def)
qed

text \<open>
  The controller keeps no enable flag that \<open>disable_ovp\<close> could clear: apart from the
  serial object, the controller after \<open>disable_ovp\<close> is the controller before it, and
  it agrees in every field of its own with the controller after \<open>set_ovp\<close>, the
  operation that enables the protection.
\<close>

theorem no_enable_flag_counterexample:
  "fst (disable_ovp (bench [])) = (bench [])\<lparr>ser := ser (fst (disable_ovp (bench [])))\<rparr>
   \<and> target_v (fst (disable_ovp (bench []))) = target_v (fst (set_ovp (bench []) (Fin 15)))
   \<and> target_i (fst (disable_ovp (bench []))) = target_i (fst (set_ovp (bench []) (Fin 15)))
   \<and> PSWController.more (fst (disable_ovp (bench [])))
       = PSWController.more (fst (set_ovp (bench []) (Fin 15)))"
  by (simp add: disable_ovp_def set_ovp_def private_write_def split: sum.splits option.splits)

section \<open>Reading a reply\<close>

text \<open>
  C8, as the code has it.  On an open controller \<open>_readline\<close> never raises and returns
  the bytes that \<open>readline\<close> delivered, without the bytes above 127, and with the
  whitespace stripped at both ends: the decoded text is whitespace, then the reply, then
  whitespace, and a reply that is not empty neither begins nor ends with whitespace.
  When no byte was read before the timeout the reply is the empty string.
\<close>

theorem readline_strips_both_ends:
  assumes "ser c = Some s" and "port_is_open s"
    and "data = fst (read_until_lf (rx s))" and "reply = strip (filter is_ascii data)"
  shows "private_readline c = (c\<lparr>ser := Some (s\<lparr>rx := snd (read_until_lf (rx s))\<rparr>)\<rparr>, Inr reply)
       \<and> filter is_ascii data
           = takeWhile isspace (filter is_ascii data) @ reply
             @ rev (takeWhile isspace (rev (dropWhile isspace (filter is_ascii data))))
       \<and> (reply \<noteq> [] \<longrightarrow> \<not> isspace (hd reply) \<and> \<not> isspace (last reply))
       \<and> (data = [] \<longrightarrow> reply = [])"
proof -
  have 1: "private_readline c = (c\<lparr>ser := Some (s\<lparr>rx := snd (read_until_lf (rx s))\<rparr>)\<rparr>, Inr reply)"
    using private_readline_open[OF assms(1,2)] assms(3,4) by (simp add: decode_ascii_ignore_def)
  have 2: "data = [] \<longrightarrow> reply = []"
    using assms(4) by (simp add: strip_def rstrip_def lstrip_def)
  show ?thesis
    using 1 2 strip_split[of "filter is_ascii data"] strip_ends[of "filter is_ascii data"] assms(4)
    by simp
qed

theorem readline_strips_both_ends_witness:
  "ser (receiving [CHR 0x20, CHR 0xC3, CHR ''1'', CHR 0x0D, CHR 0x0A, CHR ''2''])
     = Some \<lparr>port_is_open = True, tx = [], rx = [CHR 0x20, CHR 0xC3, CHR ''1'', CHR 0x0D, CHR 0x0A, CHR ''2''],
             instrument = (\<lambda>h. [])\<rparr>
   \<and> fst (read_until_lf [CHR 0x20, CHR 0xC3, CHR ''1'', CHR 0x0D, CHR 0x0A, CHR ''2''])
       = [CHR 0x20, CHR 0xC3, CHR ''1'', CHR 0x0D, CHR 0x0A]
   \<and> strip (filter is_ascii [CHR 0x20, CHR 0xC3, CHR ''1'', CHR 0x0D, CHR 0x0A]) = ''1''
   \<and> private_readline (receiving [CHR 0x20, CHR 0xC3, CHR ''1'', CHR 0x0D, CHR 0x0A, CHR ''2''])
       = (\<lparr>ser = Some \<lparr>port_is_open = True, tx = [], rx = ''2'', instrument = (\<lambda>h. [])\<rparr>,
           target_v = Fin 5, target_i = Fin 1\<rparr>, Inr ''1'')"
proof -
  let ?rx = "[CHR 0x20, CHR 0xC3, CHR ''1'', CHR 0x0D, CHR 0x0A, CHR ''2'']"
  let ?s = "\<lparr>port_is_open = True, tx = [], rx = ?rx, instrument = (\<lambda>h. [])\<rparr>"
  have r: "read_until_lf ?rx = ([CHR 0x20, CHR 0xC3, CHR ''1'', CHR 0x0D, CHR 0x0A], ''2'')"
    by (simp add: read_until_lf_def LF_def)
  have h: "ser (receiving ?rx) = Some ?s" "port_is_open ?s"
    "[CHR 0x20, CHR 0xC3, CHR ''1'', CHR 0x0D, CHR 0x0A] = fst (read_until_lf (rx ?s))"
    "''1'' = strip (filter is_ascii [CHR 0x20, CHR 0xC3, CHR ''1'', CHR 0x0D, CHR 0x0A])"
    by (simp_all add: receiving_def r strip_eval is_ascii_def)
  show ?thesis
    using h r readline_strips_both_ends[OF h] by (simp add: receiving_def)
qed

text \<open>
  Stripping the trailing whitespace only would keep a leading space, which the code
  removes.
\<close>

theorem leading_whitespace_counterexample:
  "snd (private_readline (receiving ('' 1'' @ CRLF))) = Inr ''1''
   \<and> fst (read_until_lf ('' 1'' @ CRLF)) = '' 1'' @ CRLF
   \<and> receive_line_spec ('' 1'' @ CRLF) = '' 1''"
  by (simp add: private_readline_def receiving_def is_open_def serial_readline_def
      read_until_lf_def LF_def CRLF_def decode_ascii_ignore_def is_ascii_def strip_eval
      receive_line_spec_def)

section \<open>Protection status\<close>

text \<open>
  C5, up to the digit limit of \<open>int\<close>.  When the reply to the questionable condition
  query is the decimal text of the unsigned integer \<open>n\<close>, and the text has no more
  digits than the limit, \<open>get_protection_status\<close> returns bit 0 of \<open>n\<close> as the
  over-voltage flag, bit 1 of \<open>n\<close> as the over-current flag, whatever the other bits
  are, and \<open>n\<close> itself as the raw value.
\<close>

theorem protection_status_decodes_bits:
  assumes "query c ''STATus:QUEStionable:CONDition?'' = (c', Inr reply)"
    and "reply = dec_str n" and "length (dec_str n) \<le> max_str_digits"
  shows "get_protection_status c = (c', Inr (bit n 0, bit n 1, int n))"
  using assms
  by (simp add: get_protection_status_def py_int_dec_str and_one_bit and_two_bit)

theorem protection_status_decodes_bits_witness:
  "query (bench (''3'' @ CRLF)) ''STATus:QUEStionable:CONDition?''
     = (\<lparr>ser = Some \<lparr>port_is_open = True, tx = [''STATus:QUEStionable:CONDition?'' @ CRLF],
                     rx = [], instrument = (\<lambda>h. ''3'' @ CRLF)\<rparr>,
         target_v = Fin 5, target_i = Fin 1\<rparr>, Inr ''3'')
   \<and> ''3'' = dec_str 3
   \<and> length (dec_str 3) \<le> max_str_digits
   \<and> get_protection_status (bench (''3'' @ CRLF))
     = (\<lparr>ser = Some \<lparr>port_is_open = True, tx = [''STATus:QUEStionable:CONDition?'' @ CRLF],
                     rx = [], instrument = (\<lambda>h. ''3'' @ CRLF)\<rparr>,
         target_v = Fin 5, target_i = Fin 1\<rparr>, Inr (True, True, 3))"
proof -
  have d: "''3'' = dec_str 3" by (simp add: dec_str.simps digit_char_def)
  have l: "length (dec_str 3) \<le> max_str_digits"
    by (simp add: d[symmetric] max_str_digits_def)
  have b: "bit (3::nat) 0" "bit (3::nat) 1" by (simp_all add: bit_0 bit_Suc)
  show ?thesis
    using protection_status_decodes_bits[OF query_bench_3 d l] query_bench_3 d l b
    by (simp add: max_str_digits_def)
qed

text \<open>
  Beyond the limit the method raises instead: the unsigned integer \<open>10 ^ 4300\<close> has
  4301 digits, the query returns its decimal text, and \<open>int\<close> rejects it.
\<close>

theorem long_reply_counterexample:
  "snd (query (bench (dec_str (10 ^ 4300) @ CRLF)) ''STATus:QUEStionable:CONDition?'')
     = Inr (dec_str (10 ^ 4300))
   \<and> snd (get_protection_status (bench (dec_str (10 ^ 4300) @ CRLF))) = Inl ValueError"
proof -
  let ?r = "dec_str (10 ^ 4300)"
  have q: "snd (query (bench (?r @ CRLF)) ''STATus:QUEStionable:CONDition?'') = Inr ?r"
    by (rule query_bench_digits[OF dec_str_digits]) (simp add: is_ascii_def)
  have "max_str_digits < length ?r"
    unfolding length_dec_str_pow10 by (simp add: max_str_digits_def)
  then have p: "py_int ?r = Inl ValueError" by (rule py_int_too_long)
  have g: "snd (get_protection_status c) = Inl ValueError"
    if "snd (query c ''STATus:QUEStionable:CONDition?'') = Inr r" "py_int r = Inl ValueError"
    for c r
    using that by (auto simp: get_protection_status_def split: prod.splits sum.splits)
  show ?thesis
    using q g[OF q p] by (rule conjI)
qed




section \<open>Measurement\<close>

text \<open>
  C2.  On an open controller \<open>measure_all\<close> never raises, whatever reply the query
  returns: when the reply splits at commas into exactly two parts that \<open>float\<close>
  accepts, it returns the two floats and the reply; in every other case it returns
  \<open>None\<close> for voltage and current and the reply as it is.
\<close>

theorem measure_all_never_raises:
  assumes "ser c = Some s" and "port_is_open s"
  shows "\<exists>c' reply. query c ''MEASure:SCALar:ALL?'' = (c', Inr reply)
       \<and> (\<forall>a b v i. split_on (CHR '','') reply = [a, b] \<and> py_float a = Inr v \<and> py_float b = Inr i
              \<longrightarrow> measure_all c = (c', Inr (Some v, Some i, reply)))
       \<and> ((\<forall>a b. split_on (CHR '','') reply = [a, b]
              \<longrightarrow> py_float a = Inl ValueError \<or> py_float b = Inl ValueError)
            \<longrightarrow> measure_all c = (c', Inr (None, None, reply)))"
proof -
  have a: "list_all is_ascii ''MEASure:SCALar:ALL?''" by (simp add: is_ascii_def)
  obtain c' reply where q: "query c ''MEASure:SCALar:ALL?'' = (c', Inr reply)"
    using query_open[OF assms a refl] by blast
  have 1: "measure_all c = (c', Inr (Some v, Some i, reply))"
    if "split_on (CHR '','') reply = [a, b]" "py_float a = Inr v" "py_float b = Inr i" for a b v i
    using that by (simp add: measure_all_def q measure_all_try_def)
  have 2: "measure_all c = (c', Inr (None, None, reply))"
    if n: "\<forall>a b. split_on (CHR '','') reply = [a, b]
              \<longrightarrow> py_float a = Inl ValueError \<or> py_float b = Inl ValueError"
  proof -
    have "measure_all_try reply = Inl ValueError"
    proof (cases "measure_all_try reply")
      case (Inl e)
      then show ?thesis using measure_all_try_error by blast
    next
      case (Inr p)
      then obtain a b v i where "split_on (CHR '','') reply = [a, b]" "py_float a = Inr v"
        "py_float b = Inr i"
        by (auto simp: measure_all_try_def split: list.splits sum.splits)
      then show ?thesis using n by fastforce
    qed
    then show ?thesis by (simp add: measure_all_def q)
  qed
  show ?thesis using q 1 2 by blast
qed

theorem measure_all_never_raises_witness:
  "ser (bench (''12.3400,0.5000'' @ CRLF)) = Some (scripted (''12.3400,0.5000'' @ CRLF))
   \<and> port_is_open (scripted (''12.3400,0.5000'' @ CRLF))
   \<and> py_float ''12.34'' = Inr (Fin (6946802425218990 / 2 ^ 49))
   \<and> py_float ''0.5'' = Inr (Fin (1 / 2))
   \<and> snd (measure_all (bench (''12.3400,0.5000'' @ CRLF)))
       = Inr (Some (Fin (6946802425218990 / 2 ^ 49)), Some (Fin (1 / 2)), ''12.3400,0.5000'')
   \<and> ser (bench (''ERR'' @ CRLF)) = Some (scripted (''ERR'' @ CRLF))
   \<and> port_is_open (scripted (''ERR'' @ CRLF))
   \<and> snd (measure_all (bench (''ERR'' @ CRLF))) = Inr (None, None, ''ERR'')"
proof -
  have h: "ser (bench r) = Some (scripted r)" "port_is_open (scripted r)" for r
    by (simp_all add: bench_def scripted_def)
  have s1: "split_on (CHR '','') ''12.3400,0.5000'' = [''12.3400'', ''0.5000'']"
    and s2: "split_on (CHR '','') ''ERR'' = [''ERR'']"
    by simp_all
  have 1: "snd (measure_all (bench (''12.3400,0.5000'' @ CRLF)))
       = Inr (Some (Fin (6946802425218990 / 2 ^ 49)), Some (Fin (1 / 2)), ''12.3400,0.5000'')"
  proof -
    obtain c' reply
      where q: "query (bench (''12.3400,0.5000'' @ CRLF)) ''MEASure:SCALar:ALL?'' = (c', Inr reply)"
        and p: "\<And>a b v i. split_on (CHR '','') reply = [a, b] \<Longrightarrow> py_float a = Inr v
                  \<Longrightarrow> py_float b = Inr i
                  \<Longrightarrow> measure_all (bench (''12.3400,0.5000'' @ CRLF))
                      = (c', Inr (Some v, Some i, reply))"
      using measure_all_never_raises[OF h, of "''12.3400,0.5000'' @ CRLF"] by blast
    have r: "reply = ''12.3400,0.5000''"
      using q unfolding query_bench_measure(1) by simp
    show ?thesis
      using p[OF s1[folded r] py_float_12_34(1) py_float_0_5(1)] r by simp
  qed
  have 2: "snd (measure_all (bench (''ERR'' @ CRLF))) = Inr (None, None, ''ERR'')"
  proof -
    obtain c' reply
      where q: "query (bench (''ERR'' @ CRLF)) ''MEASure:SCALar:ALL?'' = (c', Inr reply)"
        and p: "(\<forall>a b. split_on (CHR '','') reply = [a, b]
                   \<longrightarrow> py_float a = Inl ValueError \<or> py_float b = Inl ValueError)
                \<Longrightarrow> measure_all (bench (''ERR'' @ CRLF)) = (c', Inr (None, None, reply))"
      using measure_all_never_raises[OF h, of "''ERR'' @ CRLF"] by blast
    have r: "reply = ''ERR''"
      using q unfolding query_bench_measure(2) by simp
    have "\<forall>a b. split_on (CHR '','') reply = [a, b]
                   \<longrightarrow> py_float a = Inl ValueError \<or> py_float b = Inl ValueError"
      unfolding r s2 by simp
    from p[OF this] show ?thesis using r by simp
  qed
  show ?thesis
    using h 1 2 py_float_12_34(2) py_float_0_5(2) by simp
qed

section \<open>Round trip of the protection level\<close>

text \<open>
  C9.  On an open controller with nothing pending, whose instrument echoes the
  protection level, \<open>set_ovp v\<close> writes the level command with \<open>v\<close> in the format
  \<open>:.4f\<close>, the following \<open>get_ovp\<close> writes the level query, consumes the echoed line
  and returns what \<open>float\<close> makes of the text that was transmitted; for the level 15.0
  the text is \<open>15.0000\<close> and the value returned is the float 15.0.
\<close>

theorem ovp_round_trip:
  assumes "ser c = Some s" and "port_is_open s" and "rx s = []" and "instrument s = ovp_echo"
  shows "set_ovp c v
           = (c\<lparr>ser := Some (s\<lparr>tx := tx s @ [ovp_level @ '' '' @ format_4f v @ CRLF],
                                rx := []\<rparr>)\<rparr>, Inr ())
       \<and> get_ovp (fst (set_ovp c v))
           = (c\<lparr>ser := Some (s\<lparr>tx := tx s @ [ovp_level @ '' '' @ format_4f v @ CRLF,
                                             ovp_level @ ''?'' @ CRLF],
                                rx := []\<rparr>)\<rparr>, py_float (format_4f v))
       \<and> format_4f (Fin 15) = ''15.0000''
       \<and> (v = Fin 15 \<longrightarrow> snd (get_ovp (fst (set_ovp c v))) = Inr (Fin 15))"
proof -
  define l1 where "l1 = ovp_level @ '' '' @ format_4f v"
  define l2 where "l2 = ovp_level @ ''?''"
  define s1 where "s1 = s\<lparr>tx := tx s @ [l1 @ CRLF], rx := []\<rparr>"
  have a: "list_all is_ascii l1" "list_all is_ascii l2"
    by (simp_all add: l1_def l2_def ovp_level_def format_4f_ascii) (simp_all add: is_ascii_def)
  have e1: "ovp_echo (tx s @ [l1 @ CRLF]) = []"
    by (simp add: ovp_echo_def l1_def ovp_level_def)
  have e2: "ovp_echo (tx s @ [l1 @ CRLF, l2 @ CRLF]) = format_4f v @ CRLF"
    by (simp add: ovp_echo_def l1_def l2_def ovp_level_def)
  have w: "set_ovp c v = (c\<lparr>ser := Some s1\<rparr>, Inr ())"
    using private_write_open[OF assms(1,2) a(1)] assms(3,4) e1
    by (simp add: set_ovp_def l1_def s1_def ovp_level_def)
  have o: "ser (c\<lparr>ser := Some s1\<rparr>) = Some s1" "port_is_open s1" "rx s1 = []"
    using assms(2) by (simp_all add: s1_def)
  have i: "instrument s1 (tx s1 @ [l2 @ CRLF]) = format_4f v @ CRLF"
    using assms(4) e2 by (simp add: s1_def)
  have q: "query (c\<lparr>ser := Some s1\<rparr>) l2
             = (c\<lparr>ser := Some s1\<rparr>\<lparr>ser := Some (s1\<lparr>tx := tx s1 @ [l2 @ CRLF], rx := []\<rparr>)\<rparr>,
                Inr (format_4f v))"
    by (rule reply_of_line[OF o(1,2) a(2) o(3) i format_4f_ascii format_4f_no_space])
  have g: "get_ovp (c\<lparr>ser := Some s1\<rparr>)
             = (c\<lparr>ser := Some (s\<lparr>tx := tx s @ [l1 @ CRLF, l2 @ CRLF], rx := []\<rparr>)\<rparr>,
                py_float (format_4f v))"
    using q by (cases "py_float (format_4f v)")
      (simp_all add: get_ovp_def l2_def ovp_level_def s1_def)
  have A: "set_ovp c v
             = (c\<lparr>ser := Some (s\<lparr>tx := tx s @ [ovp_level @ '' '' @ format_4f v @ CRLF],
                                  rx := []\<rparr>)\<rparr>, Inr ())"
    by (simp add: w s1_def l1_def)
  have B: "get_ovp (fst (set_ovp c v))
             = (c\<lparr>ser := Some (s\<lparr>tx := tx s @ [ovp_level @ '' '' @ format_4f v @ CRLF,
                                               ovp_level @ ''?'' @ CRLF],
                                  rx := []\<rparr>)\<rparr>, py_float (format_4f v))"
    using g by (simp add: w l1_def l2_def)
  have C: "snd (get_ovp (fst (set_ovp c v))) = Inr (Fin 15)" if "v = Fin 15"
    unfolding B using that by (simp add: format_15 py_float_15)
  show ?thesis
    using A B C format_15 by blast
qed

theorem ovp_round_trip_witness:
  "get_ovp (fst (set_ovp
      \<lparr>ser = Some \<lparr>port_is_open = True, tx = [], rx = [], instrument = ovp_echo\<rparr>,
       target_v = Fin 5, target_i = Fin 1\<rparr> (Fin 15)))
     = (\<lparr>ser = Some \<lparr>port_is_open = True,
                     tx = [''SOURce:VOLTage:PROTection:LEVel 15.0000'' @ CRLF,
                           ''SOURce:VOLTage:PROTection:LEVel?'' @ CRLF],
                     rx = [], instrument = ovp_echo\<rparr>,
         target_v = Fin 5, target_i = Fin 1\<rparr>, Inr (Fin 15))
   \<and> format_4f (Fin (641 / 32)) = ''20.0312''
   \<and> snd (get_ovp (fst (set_ovp
      \<lparr>ser = Some \<lparr>port_is_open = True, tx = [], rx = [], instrument = ovp_echo\<rparr>,
       target_v = Fin 5, target_i = Fin 1\<rparr> (Fin (641 / 32)))))
     = Inr (Fin (1409570388371623 / 2 ^ 46))"
proof -
  let ?s = "\<lparr>port_is_open = True, tx = [], rx = [], instrument = ovp_echo\<rparr>"
  let ?c = "\<lparr>ser = Some ?s, target_v = Fin 5, target_i = Fin 1\<rparr>"
  have h: "ser ?c = Some ?s" "port_is_open ?s" "rx ?s = []" "instrument ?s = ovp_echo"
    by simp_all
  have f: "format_4f (Fin (641 / 32)) = ''20.0312''"
    by (simp add: format_eval)
  have p: "py_float ''20.0312'' = Inr (Fin (1409570388371623 / 2 ^ 46))"
    by (simp add: float_eval)
  have 1: "get_ovp (fst (set_ovp ?c (Fin 15)))
     = (\<lparr>ser = Some \<lparr>port_is_open = True,
                     tx = [''SOURce:VOLTage:PROTection:LEVel 15.0000'' @ CRLF,
                           ''SOURce:VOLTage:PROTection:LEVel?'' @ CRLF],
                     rx = [], instrument = ovp_echo\<rparr>,
         target_v = Fin 5, target_i = Fin 1\<rparr>, Inr (Fin 15))"
    unfolding ovp_round_trip[OF h, of "Fin 15", THEN conjunct2, THEN conjunct1]
    by (simp add: ovp_level_def format_15 py_float_15)
  have 2: "snd (get_ovp (fst (set_ovp ?c (Fin (641 / 32)))))
     = Inr (Fin (1409570388371623 / 2 ^ 46))"
    unfolding ovp_round_trip[OF h, of "Fin (641 / 32)", THEN conjunct2, THEN conjunct1]
    by (simp add: f p)
  show ?thesis
    using 1 f 2 by blast
qed

end
